theory Spec2Isabelle
  imports Complex_Main "HOL-Library.Sublist"
begin

section \<open>ANSI constants (constants.ts)\<close>

text \<open>
  JavaScript strings are modelled as \<open>string\<close> (lists of characters); the code only ever
  compares, slices and concatenates code units, so a character stands for one code unit.
  \<open>ESC\<close> is the control sequence introducer: the escape character followed by a bracket.
\<close>

definition ESC :: string where
  "ESC = [CHR 0x1B, CHR ''['']"

text \<open>Decimal rendering of a natural number, as a template literal prints an integer.\<close>

definition digit :: "nat \<Rightarrow> char" where
  "digit n = ''0123456789'' ! (n mod 10)"

fun show_nat :: "nat \<Rightarrow> string" where
  "show_nat n = (if n < 10 then [digit n] else show_nat (n div 10) @ [digit n])"

declare show_nat.simps [simp del]

definition code :: "nat \<Rightarrow> string" where
  "code n = ESC @ show_nat n @ ''m''"

definition FG_BASE :: nat where "FG_BASE = 30"
definition BG_BASE :: nat where "BG_BASE = 40"
definition FG_BRIGHT_BASE :: nat where "FG_BRIGHT_BASE = 90"
definition BG_BRIGHT_BASE :: nat where "BG_BRIGHT_BASE = 100"

definition FG_CLOSE :: string where "FG_CLOSE = code 39"
definition BG_CLOSE :: string where "BG_CLOSE = code 49"

definition BASE_COLORS :: "string list" where
  "BASE_COLORS = [''black'', ''red'', ''green'', ''yellow'', ''blue'', ''magenta'', ''cyan'', ''white'']"


section \<open>Style pairs and the compositor (utils.ts)\<close>

record Style =
  "open" :: string
  close :: string

subsection \<open>String.prototype.replace with a global literal pattern\<close>

text \<open>
  \<open>applyStyles\<close> builds \<open>new RegExp(escapeRegExp(s.close), "g")\<close>. \<open>escapeRegExp\<close>
  puts a backslash before every regular-expression syntax character, so the pattern matches
  the literal text \<open>s.close\<close> and has no capture group. The replacement is passed as a
  \<^emph>\<open>string\<close>, so \<open>replace\<close> expands it as a template for every match:
  \<open>$$\<close> gives a dollar sign, \<open>$&\<close> the matched text, \<open>$`\<close> the text before the match and
  \<open>$'\<close> the text after it. With no capture group, \<open>$1\<close> .. \<open>$99\<close> and \<open>$<\<close> stay as
  they are, like every other character.
\<close>

definition regExpSyntaxChars :: "char list" where
  "regExpSyntaxChars =
     [CHR ''.'', CHR ''*'', CHR ''+'', CHR ''?'', CHR ''^'', CHR ''$'', CHR ''{'', CHR ''}'',
      CHR ''('', CHR '')'', CHR ''|'', CHR ''['', CHR '']'', CHR 0x5C]"

definition escapeRegExp :: "string \<Rightarrow> string" where
  "escapeRegExp str =
     concat (map (\<lambda>c. if c \<in> set regExpSyntaxChars then [CHR 0x5C, c] else [c]) str)"

text \<open>
  The literal text a pattern source stands for, when the source is made of ordinary
  characters and backslash-escaped syntax characters only (the result is \<open>None\<close> for any
  other source).
\<close>

fun literalPattern :: "string \<Rightarrow> string option" where
  "literalPattern [] = Some []"
| "literalPattern [c] = (if c \<in> set regExpSyntaxChars then None else Some [c])"
| "literalPattern (c # d # rest) =
     (if c = CHR 0x5C then
        (if d \<in> set regExpSyntaxChars then map_option ((#) d) (literalPattern rest) else None)
      else if c \<in> set regExpSyntaxChars then None
      else map_option ((#) c) (literalPattern (d # rest)))"

fun getSubstitution :: "string \<Rightarrow> string \<Rightarrow> string \<Rightarrow> string \<Rightarrow> string" where
  "getSubstitution matched before after [] = []"
| "getSubstitution matched before after [c] = [c]"
| "getSubstitution matched before after (c # d # rest) =
     (if c = CHR ''$'' \<and> d = CHR ''$'' then CHR ''$'' # getSubstitution matched before after rest
      else if c = CHR ''$'' \<and> d = CHR ''&'' then matched @ getSubstitution matched before after rest
      else if c = CHR ''$'' \<and> d = CHR 0x60 then before @ getSubstitution matched before after rest
      else if c = CHR ''$'' \<and> d = CHR 0x27 then after @ getSubstitution matched before after rest
      else c # getSubstitution matched before after (d # rest))"

text \<open>
  The global scan: \<open>before\<close> is the part of the subject already passed, \<open>rest\<close> what is
  left. A match of a non-empty pattern is replaced and the scan resumes behind it (matches
  never overlap); an empty pattern matches at every position, the end included, and the scan
  advances by one code unit after each of its matches.
\<close>

function replaceFrom :: "string \<Rightarrow> string \<Rightarrow> string \<Rightarrow> string \<Rightarrow> string" where
  "replaceFrom pat tmpl before rest =
     (if pat \<noteq> [] \<and> prefix pat rest then
        getSubstitution pat before (drop (length pat) rest) tmpl
          @ replaceFrom pat tmpl (before @ pat) (drop (length pat) rest)
      else
        (if pat = [] then getSubstitution [] before rest tmpl else [])
          @ (case rest of [] \<Rightarrow> [] | c # cs \<Rightarrow> c # replaceFrom pat tmpl (before @ [c]) cs))"
  by pat_completeness auto
termination
  by (relation "measure (\<lambda>(pat, tmpl, before, rest). length rest)") (auto simp: prefix_def)

declare replaceFrom.simps [simp del]

definition replaceAll :: "string \<Rightarrow> string \<Rightarrow> string \<Rightarrow> string" where
  "replaceAll pat tmpl subject = replaceFrom pat tmpl [] subject"

subsection \<open>applyStyles\<close>

definition wrapStyle :: "string \<Rightarrow> Style \<Rightarrow> string" where
  "wrapStyle out s = open s @ replaceAll (close s) (close s @ open s) out @ close s"

definition applyStyles :: "string \<Rightarrow> Style list \<Rightarrow> string" where
  "applyStyles text sts =
     (if length sts = 0 \<or> length text = 0 then text else foldl wrapStyle text sts)"


subsection \<open>Notions used to state the compositor's properties\<close>

text \<open>
  Literal replacement as the specification words it: scanning from the left, every match of
  \<open>pat\<close> is replaced by \<open>rep\<close> taken as it is, and the scan resumes behind the match;
  the empty pattern matches at every position.
\<close>

function replaceLiteral :: "string \<Rightarrow> string \<Rightarrow> string \<Rightarrow> string" where
  "replaceLiteral pat rep t =
     (if pat \<noteq> [] \<and> prefix pat t then rep @ replaceLiteral pat rep (drop (length pat) t)
      else (if pat = [] then rep else [])
          @ (case t of [] \<Rightarrow> [] | c # cs \<Rightarrow> c # replaceLiteral pat rep cs))"
  by pat_completeness auto
termination
  by (relation "measure (\<lambda>(pat, rep, t). length t)") (auto simp: prefix_def)

declare replaceLiteral.simps [simp del]

text \<open>Removing a wrapper: cut \<open>open p\<close>'s length from the front and \<open>close p\<close>'s from the end.\<close>

definition stripWrapper :: "Style \<Rightarrow> string \<Rightarrow> string" where
  "stripWrapper p out =
     (let inner = drop (length (open p)) out in take (length inner - length (close p)) inner)"

text \<open>Position of the first occurrence, as \<open>String.prototype.indexOf\<close> reports it.\<close>

fun indexOf :: "string \<Rightarrow> string \<Rightarrow> nat option" where
  "indexOf pat [] = (if pat = [] then Some 0 else None)"
| "indexOf pat (c # cs) =
     (if prefix pat (c # cs) then Some 0 else map_option Suc (indexOf pat cs))"

definition occursBefore :: "string \<Rightarrow> string \<Rightarrow> string \<Rightarrow> bool" where
  "occursBefore a b out =
     (case indexOf a out of None \<Rightarrow> False
      | Some i \<Rightarrow> (case indexOf b out of None \<Rightarrow> False | Some j \<Rightarrow> i < j))"

fun inOrder :: "string list \<Rightarrow> string \<Rightarrow> bool" where
  "inOrder (a # b # rest) out = (occursBefore a b out \<and> inOrder (b # rest) out)"
| "inOrder _ out = True"

text \<open>
  A chain is \<open>unnested\<close> on a text when no style's close sequence occurs in what has been
  accumulated at the moment the style is applied, so that no reopening takes place.
\<close>

fun unnested :: "string \<Rightarrow> Style list \<Rightarrow> bool" where
  "unnested out [] = True"
| "unnested out (s # ss) = (\<not> sublist (close s) out \<and> unnested (open s @ out @ close s) ss)"

text \<open>
  \<open>clash opn cls\<close>: some non-empty suffix of the open sequence is a prefix of the close
  sequence or starts with it, so that an inserted open sequence can form a new occurrence
  of the close sequence.
\<close>

definition clash :: "string \<Rightarrow> string \<Rightarrow> bool" where
  "clash opn cls = list_ex (\<lambda>u. u \<noteq> [] \<and> (prefix u cls \<or> prefix cls u)) (suffixes opn)"

text \<open>Every occurrence of the close sequence in \<open>mid\<close> has an open sequence somewhere behind it.\<close>

definition everyCloseFollowedByOpen :: "Style \<Rightarrow> string \<Rightarrow> bool" where
  "everyCloseFollowedByOpen s mid =
     list_all (\<lambda>i. prefix (close s) (drop i mid)
                  \<longrightarrow> sublist (open s) (drop (i + length (close s)) mid))
       [0..<Suc (length mid)]"


section \<open>JavaScript values\<close>

text \<open>
  A \<open>number\<close> is NaN, an infinity or a finite value; finite doubles are taken as the real
  numbers they denote (the operations used here, \<open>Math.floor\<close>, \<open>Math.min\<close> and
  \<open>Math.max\<close>, are exact on them, and the two zeros behave alike). Arguments of factories
  are the primitive values \<open>undefined\<close>, \<open>null\<close>, booleans, numbers and strings.
\<close>

datatype jsnum = NaN | PosInfinity | NegInfinity | Finite real

datatype jsval = JUndefined | JNull | JBool bool | JNumber jsnum | JString string

text \<open>
  Two conversions of the language round to or from doubles and are left open: the numeric
  value of a string (\<open>StringToNumber\<close>) and the digits of a finite number that is not a
  safe integer (\<open>FractionToString\<close>).
\<close>

record Host =
  StringToNumber :: "string \<Rightarrow> jsnum"
  FractionToString :: "real \<Rightarrow> string"

fun Number :: "Host \<Rightarrow> jsval \<Rightarrow> jsnum" where
  "Number h JUndefined = NaN"
| "Number h JNull = Finite 0"
| "Number h (JBool b) = Finite (if b then 1 else 0)"
| "Number h (JNumber n) = n"
| "Number h (JString s) = StringToNumber h s"

fun numberToString :: "Host \<Rightarrow> jsnum \<Rightarrow> string" where
  "numberToString h NaN = ''NaN''"
| "numberToString h PosInfinity = ''Infinity''"
| "numberToString h NegInfinity = ''-Infinity''"
| "numberToString h (Finite x) =
     (if of_int \<lfloor>x\<rfloor> = x \<and> \<bar>x\<bar> < 2 ^ 53
      then (if x < 0 then ''-'' else []) @ show_nat (nat \<lfloor>\<bar>x\<bar>\<rfloor>)
      else FractionToString h x)"

fun String :: "Host \<Rightarrow> jsval \<Rightarrow> string" where
  "String h JUndefined = ''undefined''"
| "String h JNull = ''null''"
| "String h (JBool b) = (if b then ''true'' else ''false'')"
| "String h (JNumber n) = numberToString h n"
| "String h (JString s) = s"

fun Math_floor :: "jsnum \<Rightarrow> jsnum" where
  "Math_floor (Finite x) = Finite (of_int \<lfloor>x\<rfloor>)"
| "Math_floor n = n"

fun Math_max :: "jsnum \<Rightarrow> jsnum \<Rightarrow> jsnum" where
  "Math_max NaN b = NaN"
| "Math_max a NaN = NaN"
| "Math_max PosInfinity b = PosInfinity"
| "Math_max a PosInfinity = PosInfinity"
| "Math_max NegInfinity b = b"
| "Math_max a NegInfinity = a"
| "Math_max (Finite x) (Finite y) = Finite (max x y)"

fun Math_min :: "jsnum \<Rightarrow> jsnum \<Rightarrow> jsnum" where
  "Math_min NaN b = NaN"
| "Math_min a NaN = NaN"
| "Math_min NegInfinity b = NegInfinity"
| "Math_min a NegInfinity = NegInfinity"
| "Math_min PosInfinity b = b"
| "Math_min a PosInfinity = a"
| "Math_min (Finite x) (Finite y) = Finite (min x y)"

datatype js_error = Error string | TypeError

text \<open>Exceptions are values: a computation that may throw returns \<open>js_error + 'a\<close>.\<close>


section \<open>Colour helpers (utils.ts)\<close>

definition clamp255 :: "Host \<Rightarrow> jsval \<Rightarrow> jsnum" where
  "clamp255 h n =
     (let n = Number h n in
      if n = NaN then Finite 0
      else Math_min (Finite 255) (Math_max (Finite 0) (Math_floor n)))"

text \<open>White space and line terminators that \<open>trim\<close> removes, among the characters modelled.\<close>

definition isWhiteSpace :: "char \<Rightarrow> bool" where
  "isWhiteSpace c \<longleftrightarrow>
     c \<in> set [CHR 0x09, CHR 0x0A, CHR 0x0B, CHR 0x0C, CHR 0x0D, CHR 0x20, CHR 0xA0]"

definition trim :: "string \<Rightarrow> string" where
  "trim s = rev (dropWhile isWhiteSpace (rev (dropWhile isWhiteSpace s)))"

text \<open>\<open>h.replace(/^#/u, "")\<close>: one leading hash sign is removed.\<close>

definition stripHash :: "string \<Rightarrow> string" where
  "stripHash s = (case s of [] \<Rightarrow> [] | c # cs \<Rightarrow> if c = CHR ''#'' then cs else c # cs)"

definition isHexDigit :: "char \<Rightarrow> bool" where
  "isHexDigit c \<longleftrightarrow> c \<in> set ''0123456789abcdefABCDEF''"

definition hexDigitValue :: "char \<Rightarrow> nat" where
  "hexDigitValue c =
     (if c \<in> set ''0123456789'' then of_char c - 48
      else if c \<in> set ''abcdef'' then of_char c - 87
      else of_char c - 55)"

text \<open>
  \<open>parseInt(s, 16)\<close>: leading white space is skipped, then an optional sign and an
  optional \<open>0x\<close> prefix; the longest run of hexadecimal digits that follows is the value, and
  the result is NaN when that run is empty.
\<close>

definition parseInt16 :: "string \<Rightarrow> jsnum" where
  "parseInt16 s =
     (let s1 = dropWhile isWhiteSpace s;
          neg = (s1 \<noteq> [] \<and> hd s1 = CHR ''-'');
          s2 = (if s1 \<noteq> [] \<and> (hd s1 = CHR ''-'' \<or> hd s1 = CHR ''+'') then tl s1 else s1);
          s3 = (if prefix ''0x'' s2 \<or> prefix ''0X'' s2 then drop 2 s2 else s2);
          z = takeWhile isHexDigit s3;
          v = foldl (\<lambda>acc c. 16 * acc + hexDigitValue c) 0 z
      in if z = [] then NaN
         else Finite (if neg then - real v else real v))"

definition parseHex :: "string \<Rightarrow> js_error + (jsnum \<times> jsnum \<times> jsnum)" where
  "parseHex hex =
     (let h = stripHash (trim hex);
          h = (if length h = 3 then concat (map (\<lambda>c. [c, c]) h) else h)
      in if length h \<noteq> 6 \<or> list_ex (\<lambda>c. \<not> isHexDigit c) h
         then Inl (Error (''Invalid hex color: '' @ hex))
         else Inr (parseInt16 (take 2 h),
                   parseInt16 (take 2 (drop 2 h)),
                   parseInt16 (take 2 (drop 4 h))))"

definition truecolor :: "Host \<Rightarrow> nat \<Rightarrow> jsval \<Rightarrow> jsval \<Rightarrow> jsval \<Rightarrow> Style" where
  "truecolor h openBase r g b =
     (let R = clamp255 h r; G = clamp255 h g; B = clamp255 h b
      in \<lparr>open = ESC @ show_nat openBase @ '';2;'' @ numberToString h R @ '';''
                  @ numberToString h G @ '';'' @ numberToString h B @ ''m'',
          close = (if openBase = 38 then FG_CLOSE else BG_CLOSE)\<rparr>)"

definition joinWith :: "string \<Rightarrow> string list \<Rightarrow> string" where
  "joinWith sep xs = (case xs of [] \<Rightarrow> [] | y # ys \<Rightarrow> foldl (\<lambda>acc x. acc @ sep @ x) y ys)"

definition joinArgs :: "Host \<Rightarrow> jsval list \<Rightarrow> string" where
  "joinArgs h args = joinWith '' '' (map (String h) args)"

text \<open>\<open>toUpperCase\<close> on the letters it is applied to here, the ASCII ones.\<close>

definition toUpperCase :: "char \<Rightarrow> char" where
  "toUpperCase c =
     (case map_of (zip ''abcdefghijklmnopqrstuvwxyz'' ''ABCDEFGHIJKLMNOPQRSTUVWXYZ'') c of
        Some u \<Rightarrow> u
      | None \<Rightarrow> c)"

definition capitalize :: "string \<Rightarrow> string" where
  "capitalize s = map toUpperCase (take 1 s) @ drop 1 s"


section \<open>Registry and builder (core.ts)\<close>

type_synonym StyleFactory = "jsval list \<Rightarrow> js_error + Style"

text \<open>
  The two tables are objects used as dictionaries of the declared types
  \<open>Record<string, Style>\<close> and \<open>Record<string, StyleFactory>\<close>; an entry, once present,
  is an object or a function and therefore truthy. This record holds the entries stored by
  the code; the names that a table inherits from its prototype are added in the subsection
  on the tables as objects.
\<close>

record Registry =
  styles :: "string \<rightharpoonup> Style"
  dynamics :: "string \<rightharpoonup> StyleFactory"

definition modifierCodes :: "(string \<times> Style) list" where
  "modifierCodes =
     [(''reset'', \<lparr>open = code 0, close = code 0\<rparr>),
      (''bold'', \<lparr>open = code 1, close = code 22\<rparr>),
      (''dim'', \<lparr>open = code 2, close = code 22\<rparr>),
      (''italic'', \<lparr>open = code 3, close = code 23\<rparr>),
      (''underline'', \<lparr>open = code 4, close = code 24\<rparr>),
      (''inverse'', \<lparr>open = code 7, close = code 27\<rparr>),
      (''hidden'', \<lparr>open = code 8, close = code 28\<rparr>),
      (''strikethrough'', \<lparr>open = code 9, close = code 29\<rparr>)]"

text \<open>One round of the \<open>forEach\<close> over \<open>BASE_COLORS\<close>: four entries per colour.\<close>

definition addColor :: "(string \<rightharpoonup> Style) \<Rightarrow> nat \<times> string \<Rightarrow> (string \<rightharpoonup> Style)" where
  "addColor tbl e =
     (case e of (i, name) \<Rightarrow>
        tbl(name \<mapsto> \<lparr>open = code (FG_BASE + i), close = FG_CLOSE\<rparr>,
            name @ ''Bright'' \<mapsto> \<lparr>open = code (FG_BRIGHT_BASE + i), close = FG_CLOSE\<rparr>,
            ''bg'' @ capitalize name \<mapsto> \<lparr>open = code (BG_BASE + i), close = BG_CLOSE\<rparr>,
            ''bg'' @ capitalize name @ ''Bright''
              \<mapsto> \<lparr>open = code (BG_BRIGHT_BASE + i), close = BG_CLOSE\<rparr>))"

definition arg :: "jsval list \<Rightarrow> nat \<Rightarrow> jsval" where
  "arg args i = (if i < length args then args ! i else JUndefined)"

text \<open>
  The \<open>hex\<close> factories call \<open>parseHex\<close> on their first argument with no handler around
  the call; \<open>hex.trim()\<close> on a value that is not a string is a \<open>TypeError\<close>.
\<close>

definition hexFactory :: "Host \<Rightarrow> nat \<Rightarrow> StyleFactory" where
  "hexFactory h openBase args =
     (case arg args 0 of
        JString s \<Rightarrow>
          (case parseHex s of
             Inl e \<Rightarrow> Inl e
           | Inr (r, g, b) \<Rightarrow> Inr (truecolor h openBase (JNumber r) (JNumber g) (JNumber b)))
      | _ \<Rightarrow> Inl TypeError)"

definition rgbFactory :: "Host \<Rightarrow> nat \<Rightarrow> StyleFactory" where
  "rgbFactory h openBase args = Inr (truecolor h openBase (arg args 0) (arg args 1) (arg args 2))"

definition createDefaultRegistry :: "Host \<Rightarrow> Registry" where
  "createDefaultRegistry h =
     (let tbl = foldl addColor (map_of modifierCodes) (enumerate 0 BASE_COLORS);
          tbl = tbl(''grey'' \<mapsto> \<lparr>open = code FG_BRIGHT_BASE, close = FG_CLOSE\<rparr>,
                    ''gray'' \<mapsto> \<lparr>open = code FG_BRIGHT_BASE, close = FG_CLOSE\<rparr>,
                    ''bgGrey'' \<mapsto> \<lparr>open = code BG_BRIGHT_BASE, close = BG_CLOSE\<rparr>,
                    ''bgGray'' \<mapsto> \<lparr>open = code BG_BRIGHT_BASE, close = BG_CLOSE\<rparr>)
      in \<lparr>styles = tbl,
          dynamics = [''rgb'' \<mapsto> rgbFactory h 38, ''bgRgb'' \<mapsto> rgbFactory h 48,
                      ''hex'' \<mapsto> hexFactory h 38, ''bgHex'' \<mapsto> hexFactory h 48]\<rparr>)"

text \<open>
  One \<open>createFlu\<close> instance: its registry, shared by all builders, and the style arrays
  the builders' closures hold. A builder is identified with the reference of its array; the
  cells below \<open>nextRef\<close> are the allocated ones.
\<close>

record FluState =
  registry :: Registry
  arrays :: "nat \<Rightarrow> Style list"
  nextRef :: nat

definition alloc :: "FluState \<Rightarrow> Style list \<Rightarrow> FluState \<times> nat" where
  "alloc \<sigma> xs = (\<sigma>\<lparr>arrays := (arrays \<sigma>)(nextRef \<sigma> := xs), nextRef := Suc (nextRef \<sigma>)\<rparr>, nextRef \<sigma>)"

datatype Symbol = Symbol_toPrimitive | Symbol_other nat

datatype PropertyKey = StringKey string | SymbolKey Symbol

text \<open>
  What a property access returns: one of the three plugin closures, a new builder, the
  closure of a dynamic style (it remembers the property name and the builder's array), the
  \<open>Symbol.toPrimitive\<close> closure, or \<open>undefined\<close>.
\<close>

datatype GetResult =
    RegisterStyleFn
  | RegisterDynamicStyleFn
  | ExtendFn
  | Builder nat
  | DynamicFn string nat
  | ToPrimitiveFn nat
  | Undefined

definition get :: "FluState \<Rightarrow> nat \<Rightarrow> PropertyKey \<Rightarrow> FluState \<times> GetResult" where
  "get \<sigma> b prop =
     (if prop = StringKey ''registerStyle'' then (\<sigma>, RegisterStyleFn)
      else if prop = StringKey ''registerDynamicStyle'' then (\<sigma>, RegisterDynamicStyleFn)
      else if prop = StringKey ''extend'' then (\<sigma>, ExtendFn)
      else
        (case prop of
           StringKey p \<Rightarrow>
             (case styles (registry \<sigma>) p of
                Some st \<Rightarrow> (case alloc \<sigma> (arrays \<sigma> b @ [st]) of (\<sigma>', b') \<Rightarrow> (\<sigma>', Builder b'))
              | None \<Rightarrow>
                  (case dynamics (registry \<sigma>) p of
                     Some f \<Rightarrow> (\<sigma>, DynamicFn p b)
                   | None \<Rightarrow> (\<sigma>, Undefined)))
         | SymbolKey s \<Rightarrow>
             if s = Symbol_toPrimitive then (\<sigma>, ToPrimitiveFn b) else (\<sigma>, Undefined)))"

text \<open>The closures' bodies.\<close>

definition registerStyle :: "FluState \<Rightarrow> string \<Rightarrow> string \<Rightarrow> string \<Rightarrow> FluState" where
  "registerStyle \<sigma> name opn cls =
     \<sigma>\<lparr>registry := (registry \<sigma>)\<lparr>styles := (styles (registry \<sigma>))(name \<mapsto> \<lparr>open = opn, close = cls\<rparr>)\<rparr>\<rparr>"

definition registerDynamicStyle :: "FluState \<Rightarrow> string \<Rightarrow> StyleFactory \<Rightarrow> FluState" where
  "registerDynamicStyle \<sigma> name factory =
     \<sigma>\<lparr>registry := (registry \<sigma>)\<lparr>dynamics := (dynamics (registry \<sigma>))(name \<mapsto> factory)\<rparr>\<rparr>"

fun extend :: "FluState \<Rightarrow> (string \<times> (Style + StyleFactory)) list \<Rightarrow> FluState" where
  "extend \<sigma> [] = \<sigma>"
| "extend \<sigma> ((k, Inr f) # defs) = extend (registerDynamicStyle \<sigma> k f) defs"
| "extend \<sigma> ((k, Inl st) # defs) = extend (registerStyle \<sigma> k (open st) (close st)) defs"

text \<open>
  Calling the closure of a dynamic style: the factory is looked up in the registry at the
  time of the call, and what it throws is thrown by the call.
\<close>

definition callDynamic :: "FluState \<Rightarrow> string \<Rightarrow> nat \<Rightarrow> jsval list \<Rightarrow> js_error + (FluState \<times> nat)" where
  "callDynamic \<sigma> p b args =
     (case dynamics (registry \<sigma>) p of
        None \<Rightarrow> Inl TypeError
      | Some f \<Rightarrow>
          (case f args of
             Inl e \<Rightarrow> Inl e
           | Inr st \<Rightarrow> Inr (alloc \<sigma> (arrays \<sigma> b @ [st]))))"

definition callToPrimitive :: "FluState \<Rightarrow> nat \<Rightarrow> string" where
  "callToPrimitive \<sigma> b = applyStyles [] (arrays \<sigma> b)"

definition callBuilder :: "Host \<Rightarrow> FluState \<Rightarrow> nat \<Rightarrow> jsval list \<Rightarrow> string" where
  "callBuilder h \<sigma> b args = applyStyles (joinArgs h args) (arrays \<sigma> b)"

definition createFlu :: "Host \<Rightarrow> FluState \<times> nat" where
  "createFlu h =
     alloc \<lparr>registry = createDefaultRegistry h, arrays = (\<lambda>r. []), nextRef = 0\<rparr> []"


subsection \<open>The tables as JavaScript objects\<close>

text \<open>
  \<open>registry.styles\<close> and \<open>registry.dynamics\<close> are plain objects, so \<open>registry.styles[prop]\<close>
  also finds what the table inherits. A table starts with \<open>Object.prototype\<close> as its
  prototype, which gives it eleven functions and the accessor \<open>__proto__\<close>; reading
  \<open>__proto__\<close> gives the prototype, and assigning an object to it replaces the prototype
  instead of storing an entry (unless the table has an entry of its own under that name,
  which the code never creates). The definitions \<open>get\<close> and \<open>registerStyle\<close> above describe
  the entries that the code stores; the definitions of this subsection add the inherited
  names, and agree with them elsewhere (lemma \<open>get_obj_refines\<close>).
\<close>

definition objectPrototypeNames :: "string list" where
  "objectPrototypeNames =
     [''constructor'', ''__defineGetter__'', ''__defineSetter__'', ''hasOwnProperty'',
      ''__lookupGetter__'', ''__lookupSetter__'', ''isPrototypeOf'', ''propertyIsEnumerable'',
      ''toString'', ''valueOf'', ''toLocaleString'']"

text \<open>
  What a builder's array can hold: a style pair, a string (the \<open>open\<close> or \<open>close\<close> of a pair
  that has become the table's prototype), a function of \<open>Object.prototype\<close>, or
  \<open>Object.prototype\<close> itself.
\<close>

datatype Entry = StylePair Style | Text string | ProtoFunction string | ObjectPrototype

text \<open>
  What a function that has become the prototype of \<open>registry.dynamics\<close> gives under a name,
  from its own properties and those of \<open>Function.prototype\<close>: nothing, a falsy value, a
  truthy value, or a \<open>TypeError\<close> thrown by an accessor.
\<close>

datatype FnLookup = FnAbsent | FnFalsy | FnTruthy | FnThrows

record ObjState =
  ownTables :: Registry
  stylesProto :: "Style option"
  dynamicsProto :: "(string \<Rightarrow> FnLookup) option"
  chains :: "nat \<Rightarrow> Entry list"
  nextChain :: nat

text \<open>\<open>registry.styles[prop]\<close> when it is truthy: own entries first, then the prototype chain.\<close>

definition lookupStyle :: "ObjState \<Rightarrow> string \<Rightarrow> Entry option" where
  "lookupStyle \<sigma> p =
     (case styles (ownTables \<sigma>) p of
        Some st \<Rightarrow> Some (StylePair st)
      | None \<Rightarrow>
          (case stylesProto \<sigma> of
             Some pr \<Rightarrow>
               if p = ''open'' then (if open pr = [] then None else Some (Text (open pr)))
               else if p = ''close'' then (if close pr = [] then None else Some (Text (close pr)))
               else if p = ''__proto__'' then Some (StylePair pr)
               else if p \<in> set objectPrototypeNames then Some (ProtoFunction p)
               else None
           | None \<Rightarrow>
               if p = ''__proto__'' then Some ObjectPrototype
               else if p \<in> set objectPrototypeNames then Some (ProtoFunction p)
               else None))"

datatype DynLookup = DynTruthy | DynFalsy | DynThrows

definition lookupDynamic :: "ObjState \<Rightarrow> string \<Rightarrow> DynLookup" where
  "lookupDynamic \<sigma> p =
     (case dynamics (ownTables \<sigma>) p of
        Some f \<Rightarrow> DynTruthy
      | None \<Rightarrow>
          (case (case dynamicsProto \<sigma> of Some fp \<Rightarrow> fp p | None \<Rightarrow> FnAbsent) of
             FnFalsy \<Rightarrow> DynFalsy
           | FnTruthy \<Rightarrow> DynTruthy
           | FnThrows \<Rightarrow> DynThrows
           | FnAbsent \<Rightarrow>
               if p = ''__proto__'' \<or> p \<in> set objectPrototypeNames then DynTruthy else DynFalsy))"

definition alloc_obj :: "ObjState \<Rightarrow> Entry list \<Rightarrow> ObjState \<times> nat" where
  "alloc_obj \<sigma> xs =
     (\<sigma>\<lparr>chains := (chains \<sigma>)(nextChain \<sigma> := xs), nextChain := Suc (nextChain \<sigma>)\<rparr>, nextChain \<sigma>)"

definition get_obj :: "ObjState \<Rightarrow> nat \<Rightarrow> PropertyKey \<Rightarrow> js_error + (ObjState \<times> GetResult)" where
  "get_obj \<sigma> b prop =
     (if prop = StringKey ''registerStyle'' then Inr (\<sigma>, RegisterStyleFn)
      else if prop = StringKey ''registerDynamicStyle'' then Inr (\<sigma>, RegisterDynamicStyleFn)
      else if prop = StringKey ''extend'' then Inr (\<sigma>, ExtendFn)
      else
        (case prop of
           StringKey p \<Rightarrow>
             (case lookupStyle \<sigma> p of
                Some st \<Rightarrow>
                  (case alloc_obj \<sigma> (chains \<sigma> b @ [st]) of (\<sigma>', b') \<Rightarrow> Inr (\<sigma>', Builder b'))
              | None \<Rightarrow>
                  (case lookupDynamic \<sigma> p of
                     DynTruthy \<Rightarrow> Inr (\<sigma>, DynamicFn p b)
                   | DynFalsy \<Rightarrow> Inr (\<sigma>, Undefined)
                   | DynThrows \<Rightarrow> Inl TypeError))
         | SymbolKey s \<Rightarrow>
             if s = Symbol_toPrimitive then Inr (\<sigma>, ToPrimitiveFn b) else Inr (\<sigma>, Undefined)))"

definition registerStyle_obj :: "ObjState \<Rightarrow> string \<Rightarrow> string \<Rightarrow> string \<Rightarrow> ObjState" where
  "registerStyle_obj \<sigma> name opn cls =
     (if name = ''__proto__'' \<and> styles (ownTables \<sigma>) name = None
      then \<sigma>\<lparr>stylesProto := Some \<lparr>open = opn, close = cls\<rparr>\<rparr>
      else \<sigma>\<lparr>ownTables := (ownTables \<sigma>)\<lparr>styles :=
                (styles (ownTables \<sigma>))(name \<mapsto> \<lparr>open = opn, close = cls\<rparr>)\<rparr>\<rparr>)"

text \<open>A factory is a function object: what it does when called, and what it gives under a name.\<close>

definition registerDynamicStyle_obj ::
    "ObjState \<Rightarrow> string \<Rightarrow> StyleFactory \<Rightarrow> (string \<Rightarrow> FnLookup) \<Rightarrow> ObjState" where
  "registerDynamicStyle_obj \<sigma> name factory props =
     (if name = ''__proto__'' \<and> dynamics (ownTables \<sigma>) name = None
      then \<sigma>\<lparr>dynamicsProto := Some props\<rparr>
      else \<sigma>\<lparr>ownTables := (ownTables \<sigma>)\<lparr>dynamics := (dynamics (ownTables \<sigma>))(name \<mapsto> factory)\<rparr>\<rparr>)"

fun extend_obj ::
    "ObjState \<Rightarrow> (string \<times> (Style + StyleFactory \<times> (string \<Rightarrow> FnLookup))) list \<Rightarrow> ObjState" where
  "extend_obj \<sigma> [] = \<sigma>"
| "extend_obj \<sigma> ((k, Inr (f, props)) # defs) = extend_obj (registerDynamicStyle_obj \<sigma> k f props) defs"
| "extend_obj \<sigma> ((k, Inl st) # defs) = extend_obj (registerStyle_obj \<sigma> k (open st) (close st)) defs"

definition createFlu_obj :: "Host \<Rightarrow> ObjState \<times> nat" where
  "createFlu_obj h =
     alloc_obj \<lparr>ownTables = createDefaultRegistry h, stylesProto = None, dynamicsProto = None,
                chains = (\<lambda>r. []), nextChain = 0\<rparr> []"

text \<open>A state of the entries-only description, seen as a state with untouched prototypes.\<close>

definition asObjState :: "FluState \<Rightarrow> ObjState" where
  "asObjState \<sigma> =
     \<lparr>ownTables = registry \<sigma>, stylesProto = None, dynamicsProto = None,
      chains = (\<lambda>r. map StylePair (arrays \<sigma> r)), nextChain = nextRef \<sigma>\<rparr>"


subsection \<open>Notions used to state the properties of colours and builders\<close>

text \<open>Clamping as the specification words it: NaN gives 0, otherwise floor and clamp into 0..255.\<close>

fun clampSpec :: "jsnum \<Rightarrow> nat" where
  "clampSpec NaN = 0"
| "clampSpec PosInfinity = 255"
| "clampSpec NegInfinity = 0"
| "clampSpec (Finite x) = nat (min 255 (max 0 \<lfloor>x\<rfloor>))"

text \<open>The byte written by two hexadecimal digits.\<close>

definition hexByte :: "char \<Rightarrow> char \<Rightarrow> jsnum" where
  "hexByte a b = Finite (real (16 * hexDigitValue a + hexDigitValue b))"

text \<open>A host for the examples: no string is numeric, fractions print as nothing.\<close>

definition exampleHost :: Host where
  "exampleHost = \<lparr>StringToNumber = (\<lambda>s. NaN), FractionToString = (\<lambda>x. [])\<rparr>"



text \<open>The property names that the \<open>get\<close> trap answers before it consults the registry.\<close>

definition pluginNames :: "string set" where
  "pluginNames = {''registerStyle'', ''registerDynamicStyle'', ''extend''}"


section \<open>Properties of the compositor\<close>

text \<open>
  C9. Rendering any text through the empty style list returns the text unchanged, and
  rendering the empty text through any style list returns the empty text: no escape
  sequence is emitted in either case.
\<close>

theorem applyStyles_empty_cases:
  "applyStyles t [] = t \<and> applyStyles [] sts = []"
  by (simp add: applyStyles_def)


subsection \<open>Auxiliary facts about replacement\<close>

text \<open>The pattern that \<open>applyStyles\<close> compiles is the literal close sequence.\<close>

lemma literalPattern_escapeRegExp: "literalPattern (escapeRegExp s) = Some s"
proof (induction s)
  case Nil
  then show ?case by (simp add: escapeRegExp_def)
next
  case (Cons c cs)
  have e: "escapeRegExp (c # cs)
      = (if c \<in> set regExpSyntaxChars then [CHR 0x5C, c] else [c]) @ escapeRegExp cs"
    by (simp add: escapeRegExp_def)
  show ?case
  proof (cases "c \<in> set regExpSyntaxChars")
    case True
    then show ?thesis using e Cons.IH by simp
  next
    case False
    then have nb: "c \<noteq> CHR 0x5C" by (auto simp: regExpSyntaxChars_def)
    show ?thesis
    proof (cases "escapeRegExp cs")
      case Nil
      then show ?thesis using e False Cons.IH by simp
    next
      case (Cons d ds)
      then show ?thesis using e False nb Cons.IH by simp
    qed
  qed
qed

lemma getSubstitution_plain:
  "CHR ''$'' \<notin> set tmpl \<Longrightarrow> getSubstitution m b a tmpl = tmpl"
  by (induction m b a tmpl rule: getSubstitution.induct) auto

lemma replaceFrom_plain:
  "CHR ''$'' \<notin> set tmpl \<Longrightarrow> replaceFrom pat tmpl before t = replaceLiteral pat tmpl t"
proof (induction pat tmpl before t rule: replaceFrom.induct)
  case (1 pat tmpl before rest)
  show ?case
  proof (cases "pat \<noteq> [] \<and> prefix pat rest")
    case True
    then show ?thesis
      using 1 by (subst replaceFrom.simps, subst replaceLiteral.simps)
        (simp add: getSubstitution_plain)
  next
    case False
    then show ?thesis
      using 1 by (subst replaceFrom.simps, subst replaceLiteral.simps)
        (auto simp add: getSubstitution_plain split: list.splits)
  qed
qed

lemma replaceFrom_absent:
  "\<not> sublist pat t \<Longrightarrow> replaceFrom pat tmpl before t = t"
proof (induction t arbitrary: before)
  case Nil
  then show ?case by (subst replaceFrom.simps) auto
next
  case (Cons c cs)
  from Cons.prems have ne: "pat \<noteq> []" by auto
  from Cons.prems have np: "\<not> prefix pat (c # cs)"
    using prefix_imp_sublist by blast
  from Cons.prems have "\<not> sublist pat cs"
    by (simp add: sublist_Cons_right)
  then have "replaceFrom pat tmpl (before @ [c]) cs = cs" by (rule Cons.IH)
  then show ?case using ne np by (subst replaceFrom.simps) simp
qed

lemma wrapStyle_absent:
  "\<not> sublist (close s) out \<Longrightarrow> wrapStyle out s = open s @ out @ close s"
  by (simp add: wrapStyle_def replaceAll_def replaceFrom_absent)

lemma applyStyles_snoc:
  "t \<noteq> [] \<Longrightarrow> applyStyles t (sts @ [s]) = wrapStyle (applyStyles t sts) s"
  by (simp add: applyStyles_def)

lemma applyStyles_single:
  "t \<noteq> [] \<Longrightarrow> applyStyles t [s] = wrapStyle t s"
  by (simp add: applyStyles_def)

lemma foldl_wrapStyle_unnested:
  "unnested out sts \<Longrightarrow>
   foldl wrapStyle out sts = concat (map open (rev sts)) @ out @ concat (map close sts)"
proof (induction sts arbitrary: out)
  case Nil
  then show ?case by simp
next
  case (Cons s ss)
  from Cons.prems have w: "wrapStyle out s = open s @ out @ close s"
    by (simp add: wrapStyle_absent)
  from Cons.prems have "unnested (open s @ out @ close s) ss" by simp
  then have "foldl wrapStyle (open s @ out @ close s) ss
      = concat (map open (rev ss)) @ (open s @ out @ close s) @ concat (map close ss)"
    by (rule Cons.IH)
  then show ?case using w by simp
qed

lemma replaceLiteral_Nil: "c \<noteq> [] \<Longrightarrow> replaceLiteral c rep [] = []"
  by (subst replaceLiteral.simps) simp

lemma replaceLiteral_match:
  "c \<noteq> [] \<Longrightarrow> prefix c t \<Longrightarrow>
   replaceLiteral c rep t = rep @ replaceLiteral c rep (drop (length c) t)"
  by (subst replaceLiteral.simps) simp

lemma replaceLiteral_skip:
  "c \<noteq> [] \<Longrightarrow> \<not> prefix c (x # xs) \<Longrightarrow>
   replaceLiteral c rep (x # xs) = x # replaceLiteral c rep xs"
  by (subst replaceLiteral.simps) simp

text \<open>
  A word without the close sequence's first character that starts the replaced text was
  copied from the original text: it ends before the first replacement.
\<close>

lemma prefix_copy:
  assumes "c \<noteq> []" "hd c \<notin> set w" "prefix w (replaceLiteral c (c @ r) t)"
  shows "prefix w t"
  using assms(2,3)
proof (induction t arbitrary: w)
  case Nil
  then show ?case by (simp add: replaceLiteral_Nil assms(1))
next
  case (Cons x xs)
  show ?case
  proof (cases "prefix c (x # xs)")
    case True
    with Cons.prems have "prefix w (c @ r @ replaceLiteral c (c @ r) (drop (length c) (x # xs)))"
      by (simp add: replaceLiteral_match assms(1))
    moreover obtain c' where "c = hd c # c'" using assms(1) by (cases c) auto
    ultimately have "prefix w (hd c # c' @ r @ replaceLiteral c (c @ r) (drop (length c) (x # xs)))"
      by (metis append_Cons)
    then have "w = []" using Cons.prems(1) by (cases w) auto
    then show ?thesis by simp
  next
    case False
    with Cons.prems have p: "prefix w (x # replaceLiteral c (c @ r) xs)"
      by (simp add: replaceLiteral_skip assms(1))
    show ?thesis
    proof (cases w)
      case Nil
      then show ?thesis by simp
    next
      case wc: (Cons y ys)
      with p have yx: "y = x" and pys: "prefix ys (replaceLiteral c (c @ r) xs)" by auto
      have "hd c \<notin> set ys" using wc Cons.prems(1) by auto
      then have "prefix ys xs" using pys by (rule Cons.IH)
      then show ?thesis using wc yx by simp
    qed
  qed
qed

lemma clash_drop:
  assumes "j < length opn" "prefix cls (drop j opn @ m)"
  shows "clash opn cls"
proof -
  let ?u = "drop j opn"
  have "?u \<noteq> []" using assms(1) by simp
  moreover have "?u \<in> set (suffixes opn)" by (simp add: in_set_suffixes suffix_drop)
  moreover have "prefix ?u cls \<or> prefix cls ?u"
    using assms(2) by (meson prefix_append prefix_order.dual_order.refl prefix_same_cases)
  ultimately show ?thesis unfolding clash_def list_ex_iff by blast
qed

lemma reopened:
  assumes ne: "c \<noteq> []" and hd1: "hd c \<notin> set (tl c)" and nc: "\<not> clash opn c"
  shows "prefix c (drop i (replaceLiteral c (c @ opn) t))
         \<Longrightarrow> prefix (c @ opn) (drop i (replaceLiteral c (c @ opn) t))"
proof (induction t arbitrary: i rule: length_induct)
  case (1 t)
  let ?R = "replaceLiteral c (c @ opn)"
  show ?case
  proof (cases "prefix c t")
    case True
    define t' where "t' = drop (length c) t"
    have lt: "length t' < length t"
      using True ne by (auto simp: t'_def prefix_def)
    have R: "?R t = c @ opn @ ?R t'"
      using True ne by (simp add: replaceLiteral_match t'_def)
    consider "i = 0" | "0 < i" "i < length c" | "length c \<le> i" "i < length c + length opn"
      | "length c + length opn \<le> i" by linarith
    then show ?thesis
    proof cases
      case 1
      then show ?thesis using R by simp
    next
      case 2
      have "drop i (?R t) = drop i c @ opn @ ?R t'" using R 2 by simp
      with "1.prems" have "prefix c (drop i c @ opn @ ?R t')" by simp
      moreover have "drop i c \<noteq> []" using 2 by simp
      ultimately have "hd c = hd (drop i c)"
        using ne by (cases c; cases "drop i c") auto
      also have "\<dots> = c ! i" using 2 by (simp add: hd_drop_conv_nth)
      also have "\<dots> \<in> set (tl c)"
        using 2 by (cases c) (auto simp: nth_Cons split: nat.splits)
      finally show ?thesis using hd1 by simp
    next
      case 3
      then have "drop i (?R t) = drop (i - length c) opn @ ?R t'" using R by simp
      with "1.prems" have "prefix c (drop (i - length c) opn @ ?R t')" by simp
      moreover have "i - length c < length opn" using 3 by linarith
      ultimately have "clash opn c" by (rule clash_drop[rotated])
      then show ?thesis using nc by simp
    next
      case 4
      then have d: "drop i (?R t) = drop (i - length c - length opn) (?R t')" using R by simp
      with "1.prems" have "prefix c (drop (i - length c - length opn) (?R t'))" by simp
      then have "prefix (c @ opn) (drop (i - length c - length opn) (?R t'))"
        using "1.IH" lt by blast
      then show ?thesis using d by simp
    qed
  next
    case False
    show ?thesis
    proof (cases t)
      case Nil
      then show ?thesis using "1.prems" ne by (simp add: replaceLiteral_Nil)
    next
      case (Cons x xs)
      have R: "?R t = x # ?R xs" using False Cons ne by (simp add: replaceLiteral_skip)
      show ?thesis
      proof (cases i)
        case 0
        obtain c' where c: "c = hd c # c'" using ne by (cases c) auto
        then have c': "c' = tl c" by (metis list.sel(3))
        from "1.prems" R 0 have "prefix (hd c # c') (x # ?R xs)" using c by simp
        then have "x = hd c" and "prefix c' (?R xs)" by auto
        then have "prefix c' xs" using prefix_copy[OF ne, of c' opn xs] hd1 c' by simp
        then have "prefix c t" using Cons \<open>x = hd c\<close> c by (metis Cons_prefix_Cons)
        then show ?thesis using False by simp
      next
        case (Suc k)
        then have d: "drop i (?R t) = drop k (?R xs)" using R by simp
        with "1.prems" have "prefix c (drop k (?R xs))" by simp
        then have "prefix (c @ opn) (drop k (?R xs))" using "1.IH" Cons by simp
        then show ?thesis using d by simp
      qed
    qed
  qed
qed

subsection \<open>The claims about the compositor\<close>

text \<open>
  C6 (round trip). For every style pair \<open>p\<close> and every text \<open>t\<close> in which \<open>close p\<close> does
  not occur, rendering \<open>t\<close> through the single style \<open>p\<close> and then cutting \<open>open p\<close> from
  the front and \<open>close p\<close> from the end gives \<open>t\<close> back. A non-empty text is rendered as
  \<open>open p\<close>, the text, \<open>close p\<close>; the empty text is rendered as itself.
\<close>

theorem applyStyles_roundtrip:
  assumes "\<not> sublist (close p) t"
  shows "(t \<noteq> [] \<longrightarrow> applyStyles t [p] = open p @ t @ close p)
       \<and> stripWrapper p (applyStyles t [p]) = t"
proof (cases "t = []")
  case True
  then show ?thesis by (simp add: applyStyles_def stripWrapper_def)
next
  case False
  have "applyStyles t [p] = open p @ t @ close p"
    using False assms by (simp add: applyStyles_single wrapStyle_absent)
  then show ?thesis by (simp add: stripWrapper_def)
qed

theorem applyStyles_roundtrip_witness:
  "\<not> sublist (close \<lparr>open = code 1, close = code 22\<rparr>) ''hi''
   \<and> ''hi'' \<noteq> []
   \<and> applyStyles ''hi'' [\<lparr>open = code 1, close = code 22\<rparr>] = code 1 @ ''hi'' @ code 22
   \<and> stripWrapper \<lparr>open = code 1, close = code 22\<rparr>
        (applyStyles ''hi'' [\<lparr>open = code 1, close = code 22\<rparr>]) = ''hi''"
proof -
  let ?p = "\<lparr>open = code 1, close = code 22\<rparr>"
  have h: "\<not> sublist (close ?p) ''hi''"
    by code_simp
  have ne: "''hi'' \<noteq> []" by simp
  from applyStyles_roundtrip [OF h] ne
  have a: "applyStyles ''hi'' [?p] = open ?p @ ''hi'' @ close ?p"
    and b: "stripWrapper ?p (applyStyles ''hi'' [?p]) = ''hi''" by blast+
  from a have a': "applyStyles ''hi'' [?p] = code 1 @ ''hi'' @ code 22" by simp
  show ?thesis using h ne a' b by blast
qed


text \<open>
  C1 (chain order), as the code has it. \<open>applyStyles\<close> wraps the text in the first-chained
  style first, so each later style encloses the earlier ones. For a non-empty text the
  last-chained style is the outermost wrapper: the rendering through a chain extended by a
  style \<open>s\<close> starts with \<open>open s\<close> and ends with \<open>close s\<close>, and when the two sequences
  of \<open>s\<close> contain no dollar sign it is \<open>open s\<close>, then the rendering through the shorter
  chain with every match of \<open>close s\<close> replaced by \<open>close s\<close> followed by \<open>open s\<close>, then
  \<open>close s\<close>. On an unnested chain the output is the open sequences in reverse chain
  order, the text, and the close sequences in chain order.
\<close>

theorem chain_last_outermost:
  assumes "t \<noteq> []"
  shows "prefix (open s) (applyStyles t (sts @ [s]))
       \<and> suffix (close s) (applyStyles t (sts @ [s]))
       \<and> (CHR ''$'' \<notin> set (open s) \<and> CHR ''$'' \<notin> set (close s) \<longrightarrow>
            applyStyles t (sts @ [s])
              = open s @ replaceLiteral (close s) (close s @ open s) (applyStyles t sts) @ close s)
       \<and> (unnested t sts \<longrightarrow>
            applyStyles t sts = concat (map open (rev sts)) @ t @ concat (map close sts))"
proof -
  have w: "applyStyles t (sts @ [s])
      = open s @ replaceAll (close s) (close s @ open s) (applyStyles t sts) @ close s"
    using assms by (simp add: applyStyles_snoc wrapStyle_def)
  have 1: "prefix (open s) (applyStyles t (sts @ [s]))"
    unfolding w by simp
  have 2: "suffix (close s) (applyStyles t (sts @ [s]))"
    unfolding w by (simp add: suffix_def)
  have 3: "applyStyles t (sts @ [s])
      = open s @ replaceLiteral (close s) (close s @ open s) (applyStyles t sts) @ close s"
    if "CHR ''$'' \<notin> set (open s) \<and> CHR ''$'' \<notin> set (close s)"
  proof -
    from that have "CHR ''$'' \<notin> set (close s @ open s)" by simp
    then have "replaceAll (close s) (close s @ open s) (applyStyles t sts)
        = replaceLiteral (close s) (close s @ open s) (applyStyles t sts)"
      unfolding replaceAll_def by (rule replaceFrom_plain)
    then show ?thesis using w by simp
  qed
  have 4: "applyStyles t sts = concat (map open (rev sts)) @ t @ concat (map close sts)"
    if "unnested t sts"
    using that by (cases "sts = []") (simp_all add: applyStyles_def assms foldl_wrapStyle_unnested)
  show ?thesis using 1 2 3 4 by blast
qed

theorem chain_last_outermost_witness:
  "''x'' \<noteq> []
   \<and> CHR ''$'' \<notin> set (code 4) \<and> CHR ''$'' \<notin> set (code 24)
   \<and> applyStyles ''x'' [\<lparr>open = code 1, close = code 22\<rparr>, \<lparr>open = code 4, close = code 24\<rparr>]
       = code 4 @ replaceLiteral (code 24) (code 24 @ code 4)
                    (applyStyles ''x'' [\<lparr>open = code 1, close = code 22\<rparr>]) @ code 24
   \<and> prefix (code 4)
        (applyStyles ''x'' [\<lparr>open = code 1, close = code 22\<rparr>, \<lparr>open = code 4, close = code 24\<rparr>])
   \<and> suffix (code 24)
        (applyStyles ''x'' [\<lparr>open = code 1, close = code 22\<rparr>, \<lparr>open = code 4, close = code 24\<rparr>])
   \<and> unnested ''x'' [\<lparr>open = code 1, close = code 22\<rparr>, \<lparr>open = code 4, close = code 24\<rparr>]
   \<and> applyStyles ''x'' [\<lparr>open = code 1, close = code 22\<rparr>, \<lparr>open = code 4, close = code 24\<rparr>]
       = code 4 @ code 1 @ ''x'' @ code 22 @ code 24"
proof -
  let ?b = "\<lparr>open = code 1, close = code 22\<rparr>"
  let ?u = "\<lparr>open = code 4, close = code 24\<rparr>"
  have ne: "''x'' \<noteq> []" by simp
  have d1: "CHR ''$'' \<notin> set (code 4)" by code_simp
  have d2: "CHR ''$'' \<notin> set (code 24)" by code_simp
  have d: "CHR ''$'' \<notin> set (open ?u) \<and> CHR ''$'' \<notin> set (close ?u)" using d1 d2 by simp
  have un: "unnested ''x'' [?b, ?u]" by code_simp
  have ap: "[?b] @ [?u] = [?b, ?u]" by simp
  from chain_last_outermost [OF ne, of ?u "[?b]"] d
  have a: "applyStyles ''x'' ([?b] @ [?u])
      = open ?u @ replaceLiteral (close ?u) (close ?u @ open ?u) (applyStyles ''x'' [?b]) @ close ?u"
    and p: "prefix (open ?u) (applyStyles ''x'' ([?b] @ [?u]))"
    and q: "suffix (close ?u) (applyStyles ''x'' ([?b] @ [?u]))"
    by blast+
  from chain_last_outermost [OF ne, of ?u "[?b, ?u]"] un
  have "applyStyles ''x'' [?b, ?u]
      = concat (map open (rev [?b, ?u])) @ ''x'' @ concat (map close [?b, ?u])" by blast
  then have c: "applyStyles ''x'' [?b, ?u] = code 4 @ code 1 @ ''x'' @ code 22 @ code 24" by simp
  from a have a': "applyStyles ''x'' [?b, ?u]
      = code 4 @ replaceLiteral (code 24) (code 24 @ code 4) (applyStyles ''x'' [?b]) @ code 24"
    unfolding ap by simp
  from p have p': "prefix (code 4) (applyStyles ''x'' [?b, ?u])" unfolding ap by simp
  from q have q': "suffix (code 24) (applyStyles ''x'' [?b, ?u])" unfolding ap by simp
  show ?thesis using ne d1 d2 a' p' q' un c by blast
qed

text \<open>
  The claim as stated fails: chaining \<open>bold\<close> then \<open>underline\<close> and rendering \<open>x\<close> puts the
  open sequence of \<open>underline\<close>, the second style, in front of that of \<open>bold\<close>.
\<close>

theorem chain_order_counterexample:
  "\<not> inOrder (map open [\<lparr>open = code 1, close = code 22\<rparr>, \<lparr>open = code 4, close = code 24\<rparr>])
        (applyStyles ''x'' [\<lparr>open = code 1, close = code 22\<rparr>, \<lparr>open = code 4, close = code 24\<rparr>])"
  by code_simp

text \<open>
  C2 (reopen and wrap), as the code has it. For a non-empty text and a style whose
  sequences contain no dollar sign, applying the style replaces every match of its close
  sequence by the close sequence followed by the open sequence and wraps the result in open
  and close. If moreover the close sequence is non-empty, its first character occurs nowhere
  else in it, and open and close do not clash, then every occurrence of the close sequence in
  the middle is immediately followed by the open sequence.
\<close>

theorem reopen_then_wrap:
  assumes "t \<noteq> []" and "CHR ''$'' \<notin> set (open s)" and "CHR ''$'' \<notin> set (close s)"
  shows "applyStyles t [s] = open s @ replaceLiteral (close s) (close s @ open s) t @ close s
       \<and> (close s \<noteq> [] \<and> hd (close s) \<notin> set (tl (close s)) \<and> \<not> clash (open s) (close s) \<longrightarrow>
            (\<forall>i. prefix (close s) (drop i (replaceLiteral (close s) (close s @ open s) t))
               \<longrightarrow> prefix (close s @ open s)
                     (drop i (replaceLiteral (close s) (close s @ open s) t))))"
proof -
  have "CHR ''$'' \<notin> set (close s @ open s)" using assms(2,3) by simp
  then have "replaceAll (close s) (close s @ open s) t
      = replaceLiteral (close s) (close s @ open s) t"
    unfolding replaceAll_def by (rule replaceFrom_plain)
  then have "applyStyles t [s] = open s @ replaceLiteral (close s) (close s @ open s) t @ close s"
    using assms(1) by (simp add: applyStyles_single wrapStyle_def)
  then show ?thesis using reopened by blast
qed

theorem reopen_then_wrap_witness:
  "''a'' @ code 22 @ ''b'' \<noteq> []
   \<and> CHR ''$'' \<notin> set (code 1) \<and> CHR ''$'' \<notin> set (code 22)
   \<and> code 22 \<noteq> [] \<and> hd (code 22) \<notin> set (tl (code 22)) \<and> \<not> clash (code 1) (code 22)
   \<and> applyStyles (''a'' @ code 22 @ ''b'') [\<lparr>open = code 1, close = code 22\<rparr>]
       = code 1 @ ''a'' @ code 22 @ code 1 @ ''b'' @ code 22
   \<and> prefix (code 22) (drop 1 (replaceLiteral (code 22) (code 22 @ code 1) (''a'' @ code 22 @ ''b'')))
   \<and> prefix (code 22 @ code 1)
        (drop 1 (replaceLiteral (code 22) (code 22 @ code 1) (''a'' @ code 22 @ ''b'')))"
proof -
  let ?s = "\<lparr>open = code 1, close = code 22\<rparr>"
  let ?t = "''a'' @ code 22 @ ''b''"
  let ?mid = "replaceLiteral (code 22) (code 22 @ code 1) ?t"
  have ne: "?t \<noteq> []" by simp
  have d1: "CHR ''$'' \<notin> set (code 1)" by code_simp
  have d2: "CHR ''$'' \<notin> set (code 22)" by code_simp
  have c1: "code 22 \<noteq> []" by (simp add: code_def ESC_def)
  have c2: "hd (code 22) \<notin> set (tl (code 22))" by code_simp
  have c3: "\<not> clash (code 1) (code 22)" by code_simp
  have m: "?mid = ''a'' @ code 22 @ code 1 @ ''b''" by code_simp
  have p: "prefix (code 22) (drop 1 ?mid)" by code_simp
  from reopen_then_wrap [of ?t ?s] ne d1 d2
  have a: "applyStyles ?t [?s] = open ?s @ replaceLiteral (close ?s) (close ?s @ open ?s) ?t @ close ?s"
    and b: "close ?s \<noteq> [] \<and> hd (close ?s) \<notin> set (tl (close ?s)) \<and> \<not> clash (open ?s) (close ?s) \<longrightarrow>
            (\<forall>i. prefix (close ?s) (drop i (replaceLiteral (close ?s) (close ?s @ open ?s) ?t))
               \<longrightarrow> prefix (close ?s @ open ?s)
                     (drop i (replaceLiteral (close ?s) (close ?s @ open ?s) ?t)))"
    by simp_all
  from a m have a': "applyStyles ?t [?s] = code 1 @ ''a'' @ code 22 @ code 1 @ ''b'' @ code 22"
    by simp
  from b c1 c2 c3 p have q: "prefix (code 22 @ code 1) (drop 1 ?mid)" by simp
  show ?thesis using ne d1 d2 c1 c2 c3 a' p q by blast
qed

text \<open>
  The claim as stated fails in three ways. The empty text is returned as it is, with no
  wrapper. A dollar pattern in an open sequence is expanded by \<open>replace\<close>: with open \<open>$&\<close>
  and close \<open>X\<close>, the \<open>X\<close> in \<open>aXb\<close> becomes \<open>XX\<close>, not \<open>X$&\<close>. And with the built-in
  \<open>reset\<close> style, whose open and close are the same sequence, the middle of the rendering
  of a text holding that sequence ends with an occurrence that no open sequence follows.
\<close>

theorem reopen_then_wrap_counterexample:
  "applyStyles [] [\<lparr>open = code 1, close = code 22\<rparr>]
     \<noteq> code 1 @ replaceLiteral (code 22) (code 22 @ code 1) [] @ code 22
   \<and> applyStyles ''aXb'' [\<lparr>open = ''$&'', close = ''X''\<rparr>]
     \<noteq> ''$&'' @ replaceLiteral ''X'' (''X'' @ ''$&'') ''aXb'' @ ''X''
   \<and> \<not> everyCloseFollowedByOpen \<lparr>open = code 0, close = code 0\<rparr>
        (stripWrapper \<lparr>open = code 0, close = code 0\<rparr>
           (applyStyles (code 0 @ ''y'') [\<lparr>open = code 0, close = code 0\<rparr>]))"
  by code_simp



section \<open>Properties of the colour helpers\<close>

lemma clampSpec_le: "clampSpec n \<le> 255"
  by (cases n) auto

lemma clamp255_clampSpec: "clamp255 h v = Finite (real (clampSpec (Number h v)))"
proof (cases "Number h v")
  case (Finite x)
  have "real (nat (min 255 (max 0 \<lfloor>x\<rfloor>))) = min 255 (max 0 (of_int \<lfloor>x\<rfloor>))"
    by (simp add: min_def max_def)
  then show ?thesis using Finite by (simp add: clamp255_def)
qed (simp_all add: clamp255_def)

lemma numberToString_byte: "k \<le> 255 \<Longrightarrow> numberToString h (Finite (real k)) = show_nat k"
proof -
  assume k: "k \<le> 255"
  have "real k < 2 ^ 53"
  proof -
    have "real k \<le> 255" using k by simp
    also have "\<dots> < 2 ^ 53" by simp
    finally show ?thesis .
  qed
  then show ?thesis by simp
qed

lemma truecolor_open:
  "open (truecolor h base r g b) =
     ESC @ show_nat base @ '';2;'' @ show_nat (clampSpec (Number h r)) @ '';''
       @ show_nat (clampSpec (Number h g)) @ '';'' @ show_nat (clampSpec (Number h b)) @ ''m''"
  by (simp add: truecolor_def Let_def clamp255_clampSpec numberToString_byte clampSpec_le
      del: numberToString.simps)

text \<open>
  C7 (channel clamping). Each of the three channels of \<open>truecolor\<close> goes through
  \<open>clamp255\<close> on its own, and \<open>clamp255\<close> gives the value in 0..255 that \<open>clampSpec\<close>
  describes: an input whose conversion by \<open>Number\<close> is NaN (a non-numeric input such as
  \<open>undefined\<close>, or NaN itself) gives 0, any other input is floored and clamped. So
  \<open>rgb(-5, 300, 2.9)\<close> writes the channel values 0, 255 and 2 into the open sequence.
\<close>

theorem truecolor_clamps_channels:
  "clamp255 h v = Finite (real (clampSpec (Number h v)))
   \<and> clampSpec (Number h v) \<le> 255
   \<and> open (truecolor h base r g b) =
       ESC @ show_nat base @ '';2;'' @ show_nat (clampSpec (Number h r)) @ '';''
         @ show_nat (clampSpec (Number h g)) @ '';'' @ show_nat (clampSpec (Number h b)) @ ''m''
   \<and> clamp255 h (JNumber NaN) = Finite 0
   \<and> clamp255 h JUndefined = Finite 0
   \<and> clamp255 h (JNumber (Finite (-5))) = Finite 0
   \<and> clamp255 h (JNumber (Finite 300)) = Finite 255
   \<and> clamp255 h (JNumber (Finite 2.9)) = Finite 2
   \<and> open (truecolor h 38 (JNumber (Finite (-5))) (JNumber (Finite 300)) (JNumber (Finite 2.9)))
       = ESC @ ''38;2;0;255;2m''"
proof -
  have ex: "open (truecolor h 38 (JNumber (Finite (-5))) (JNumber (Finite 300)) (JNumber (Finite 2.9)))
       = ESC @ ''38;2;0;255;2m''"
    by (simp add: truecolor_open show_nat.simps digit_def)
  show ?thesis
    using clamp255_clampSpec [of h v] clampSpec_le [of "Number h v"] truecolor_open [of h base r g b] ex
    by (simp add: clamp255_clampSpec)
qed

lemma hex_not_special:
  "isHexDigit c \<Longrightarrow> \<not> isWhiteSpace c \<and> c \<noteq> CHR ''-'' \<and> c \<noteq> CHR ''+'' \<and> c \<noteq> CHR ''x'' \<and> c \<noteq> CHR ''X''"
  by (auto simp: isHexDigit_def isWhiteSpace_def)

lemma parseInt16_two:
  assumes "isHexDigit a" "isHexDigit b"
  shows "parseInt16 [a, b] = hexByte a b"
  using assms hex_not_special[of a] hex_not_special[of b]
  by (auto simp add: parseInt16_def hexByte_def Let_def)

lemma length3E: "length xs = 3 \<Longrightarrow> \<exists>a b c. xs = [a, b, c]"
  by (cases xs; cases "tl xs"; cases "tl (tl xs)") auto

lemma length6E: "length xs = 6 \<Longrightarrow> \<exists>a b c d e f. xs = [a, b, c, d, e, f]"
proof -
  assume "length xs = 6"
  then obtain a ys where xs: "xs = a # ys" and "length ys = 5" by (cases xs) auto
  then obtain b zs where ys: "ys = b # zs" and "length zs = 4" by (cases ys) auto
  then obtain c ws where zs: "zs = c # ws" and "length ws = 3" by (cases zs) auto
  then obtain d e f where "ws = [d, e, f]" using length3E by blast
  then show ?thesis using xs ys zs by blast
qed

lemma parseHex_cases:
  "parseHex hex =
     (let h = stripHash (trim hex) in
      if (length h = 3 \<or> length h = 6) \<and> list_all isHexDigit h
      then Inr (if length h = 3
                then (hexByte (h ! 0) (h ! 0), hexByte (h ! 1) (h ! 1), hexByte (h ! 2) (h ! 2))
                else (hexByte (h ! 0) (h ! 1), hexByte (h ! 2) (h ! 3), hexByte (h ! 4) (h ! 5)))
      else Inl (Error (''Invalid hex color: '' @ hex)))"
proof -
  define h where "h = stripHash (trim hex)"
  consider "length h = 3" | "length h = 6" | "length h \<noteq> 3" "length h \<noteq> 6" by blast
  then have "parseHex hex =
      (if (length h = 3 \<or> length h = 6) \<and> list_all isHexDigit h
       then Inr (if length h = 3
                then (hexByte (h ! 0) (h ! 0), hexByte (h ! 1) (h ! 1), hexByte (h ! 2) (h ! 2))
                else (hexByte (h ! 0) (h ! 1), hexByte (h ! 2) (h ! 3), hexByte (h ! 4) (h ! 5)))
       else Inl (Error (''Invalid hex color: '' @ hex)))"
  proof cases
    case 1
    then obtain a b c where "h = [a, b, c]" using length3E by blast
    then show ?thesis
      unfolding parseHex_def h_def [symmetric] by (auto simp: Let_def parseInt16_two)
  next
    case 2
    then obtain a b c d e f where "h = [a, b, c, d, e, f]" using length6E by blast
    then show ?thesis
      unfolding parseHex_def h_def [symmetric] by (auto simp: Let_def parseInt16_two)
  next
    case 3
    then show ?thesis
      unfolding parseHex_def h_def [symmetric] by (simp add: Let_def)
  qed
  then show ?thesis by (simp add: h_def Let_def)
qed

lemma hexFactory_throws:
  "parseHex s = Inl e \<Longrightarrow> hexFactory h base (JString s # rest) = Inl e"
  by (simp add: hexFactory_def arg_def)

lemma callDynamic_throws:
  "dynamics (registry \<sigma>) p = Some f \<Longrightarrow> f args = Inl e \<Longrightarrow> callDynamic \<sigma> p b args = Inl e"
  by (simp add: callDynamic_def)

lemmas parseHex_eval = parseHex_def trim_def isWhiteSpace_def stripHash_def isHexDigit_def
  parseInt16_def hexDigitValue_def Let_def

lemma default_styles:
  "styles (createDefaultRegistry h) ''bold'' = Some \<lparr>open = code 1, close = code 22\<rparr>"
  "styles (createDefaultRegistry h) ''frame'' = None"
  "styles (createDefaultRegistry h) ''rgb'' = None"
  by (simp_all add: createDefaultRegistry_def modifierCodes_def addColor_def BASE_COLORS_def
      enumerate_eq_zip capitalize_def toUpperCase_def Let_def)


lemma createFlu_state:
  "registry (fst (createFlu h)) = createDefaultRegistry h"
  "arrays (fst (createFlu h)) r = []"
  "nextRef (fst (createFlu h)) = 1"
  "snd (createFlu h) = 0"
  by (simp_all add: createFlu_def alloc_def)

text \<open>
  C4 (parseHex), as the code has it. \<open>parseHex\<close> first trims white space around the
  input and removes one leading hash sign. If exactly 3 or 6 hexadecimal digits of either
  case remain, it returns the three bytes, each digit of the 3-digit form counted twice, so
  \<open>#fff\<close> and \<open>#ffffff\<close> both give (255, 255, 255). For every other input, \<open>12g\<close> and
  \<open>1234\<close> among them, it throws an error whose message holds the input as it was given.
  The \<open>hex\<close> factories pass that error on, and so does the call of the dynamic accessor.
\<close>

theorem parseHex_after_trim:
  "parseHex hex =
     (let h = stripHash (trim hex) in
      if (length h = 3 \<or> length h = 6) \<and> list_all isHexDigit h
      then Inr (if length h = 3
                then (hexByte (h ! 0) (h ! 0), hexByte (h ! 1) (h ! 1), hexByte (h ! 2) (h ! 2))
                else (hexByte (h ! 0) (h ! 1), hexByte (h ! 2) (h ! 3), hexByte (h ! 4) (h ! 5)))
      else Inl (Error (''Invalid hex color: '' @ hex)))
   \<and> parseHex ''#fff'' = Inr (Finite 255, Finite 255, Finite 255)
   \<and> parseHex ''#ffffff'' = Inr (Finite 255, Finite 255, Finite 255)
   \<and> parseHex ''12g'' = Inl (Error ''Invalid hex color: 12g'')
   \<and> parseHex ''1234'' = Inl (Error ''Invalid hex color: 1234'')
   \<and> (parseHex s = Inl e \<longrightarrow>
        hexFactory h base (JString s # rest) = Inl e
        \<and> (dynamics (registry \<sigma>) p = Some (hexFactory h base)
             \<longrightarrow> callDynamic \<sigma> p b (JString s # rest) = Inl e))"
proof -
  have 1: "parseHex ''#fff'' = Inr (Finite 255, Finite 255, Finite 255)"
    by (simp add: parseHex_eval)
  have 2: "parseHex ''#ffffff'' = Inr (Finite 255, Finite 255, Finite 255)"
    by (simp add: parseHex_eval)
  have 3: "parseHex ''12g'' = Inl (Error ''Invalid hex color: 12g'')"
    by (simp add: parseHex_eval)
  have 4: "parseHex ''1234'' = Inl (Error ''Invalid hex color: 1234'')"
    by (simp add: parseHex_eval)
  have 5: "parseHex s = Inl e \<longrightarrow>
        hexFactory h base (JString s # rest) = Inl e
        \<and> (dynamics (registry \<sigma>) p = Some (hexFactory h base)
             \<longrightarrow> callDynamic \<sigma> p b (JString s # rest) = Inl e)"
    using hexFactory_throws callDynamic_throws by blast
  show ?thesis using parseHex_cases [of hex] 1 2 3 4 5 by blast
qed

theorem parseHex_after_trim_witness:
  "parseHex ''12g'' = Inl (Error ''Invalid hex color: 12g'')
   \<and> dynamics (registry (fst (createFlu exampleHost))) ''hex'' = Some (hexFactory exampleHost 38)
   \<and> hexFactory exampleHost 38 [JString ''12g''] = Inl (Error ''Invalid hex color: 12g'')
   \<and> callDynamic (fst (createFlu exampleHost)) ''hex'' 0 [JString ''12g'']
       = Inl (Error ''Invalid hex color: 12g'')"
proof -
  let ?e = "Error ''Invalid hex color: 12g''"
  let ?\<sigma> = "fst (createFlu exampleHost)"
  have a: "parseHex ''12g'' = Inl ?e" by (simp add: parseHex_eval)
  have d: "dynamics (registry ?\<sigma>) ''hex'' = Some (hexFactory exampleHost 38)"
    by (simp add: createFlu_def alloc_def createDefaultRegistry_def Let_def)
  from parseHex_after_trim [of "''12g''" "''12g''" ?e exampleHost 38 "[]" ?\<sigma> "''hex''" 0] a d
  have "hexFactory exampleHost 38 [JString ''12g''] = Inl ?e"
    and "callDynamic ?\<sigma> ''hex'' 0 [JString ''12g''] = Inl ?e" by blast+
  then show ?thesis using a d by blast
qed

text \<open>
  The claim as stated fails on an input with white space around it: \<open>" #fff"\<close> starts
  with a character that is neither the marker nor a hexadecimal digit, and is accepted.
\<close>

theorem parseHex_counterexample:
  "\<not> isHexDigit (hd '' #fff'') \<and> hd '' #fff'' \<noteq> CHR ''#''
   \<and> parseHex '' #fff'' = Inr (Finite 255, Finite 255, Finite 255)"
  by (simp add: parseHex_eval)


section \<open>Properties of the registry and the builder\<close>

lemma get_plugin:
  "get \<sigma> b (StringKey ''registerStyle'') = (\<sigma>, RegisterStyleFn)"
  "get \<sigma> b (StringKey ''registerDynamicStyle'') = (\<sigma>, RegisterDynamicStyleFn)"
  "get \<sigma> b (StringKey ''extend'') = (\<sigma>, ExtendFn)"
  by (simp_all add: get_def)



text \<open>
  C10 (plugin names shadow the registry). In every state, on every builder, the property
  names \<open>registerStyle\<close>, \<open>registerDynamicStyle\<close> and \<open>extend\<close> give the plugin functions
  and leave the state as it is, also when a style or a factory has just been registered
  under such a name: the access never gives a builder.
\<close>

theorem plugin_names_shadow_registry:
  "get \<sigma> b (StringKey ''registerStyle'') = (\<sigma>, RegisterStyleFn)
   \<and> get \<sigma> b (StringKey ''registerDynamicStyle'') = (\<sigma>, RegisterDynamicStyleFn)
   \<and> get \<sigma> b (StringKey ''extend'') = (\<sigma>, ExtendFn)
   \<and> get (registerStyle \<sigma> ''extend'' opn cls) b (StringKey ''extend'')
       = (registerStyle \<sigma> ''extend'' opn cls, ExtendFn)
   \<and> get (registerDynamicStyle \<sigma> ''registerStyle'' f) b (StringKey ''registerStyle'')
       = (registerDynamicStyle \<sigma> ''registerStyle'' f, RegisterStyleFn)"
  by (simp add: get_plugin)

text \<open>
  C3 (string coercion), as the code has it. The \<open>Symbol.toPrimitive\<close> property of a
  builder is a function that renders the empty text through the accumulated styles; as
  \<open>applyStyles\<close> returns an empty text unchanged, the result is the empty string for every
  builder, whatever styles it has accumulated.
\<close>

theorem toPrimitive_renders_nothing:
  "get \<sigma> b (SymbolKey Symbol_toPrimitive) = (\<sigma>, ToPrimitiveFn b) \<and> callToPrimitive \<sigma> b = []"
  by (simp add: get_def callToPrimitive_def applyStyles_def)

text \<open>
  The claim as stated fails: the builder \<open>flu.bold\<close> has accumulated one style, and its
  coercion is not the open sequence of \<open>bold\<close> followed by its close sequence.
\<close>

theorem toPrimitive_counterexample:
  "arrays (fst (get (fst (createFlu exampleHost)) 0 (StringKey ''bold''))) 1
     = [\<lparr>open = code 1, close = code 22\<rparr>]
   \<and> callToPrimitive (fst (get (fst (createFlu exampleHost)) 0 (StringKey ''bold''))) 1
     \<noteq> code 1 @ code 22"
  by (simp add: get_def alloc_def createFlu_state default_styles callToPrimitive_def
      applyStyles_def code_def ESC_def)



subsection \<open>Property access on the tables as objects\<close>

lemma get_obj_style:
  assumes "p \<notin> pluginNames" "lookupStyle \<sigma> p = Some v"
  shows "get_obj \<sigma> b (StringKey p)
     = Inr (\<sigma>\<lparr>chains := (chains \<sigma>)(nextChain \<sigma> := chains \<sigma> b @ [v]),
              nextChain := Suc (nextChain \<sigma>)\<rparr>,
            Builder (nextChain \<sigma>))"
  using assms by (auto simp: get_obj_def alloc_obj_def pluginNames_def)


lemma get_obj_plugin:
  "get_obj \<sigma> b (StringKey ''registerStyle'') = Inr (\<sigma>, RegisterStyleFn)"
  "get_obj \<sigma> b (StringKey ''registerDynamicStyle'') = Inr (\<sigma>, RegisterDynamicStyleFn)"
  "get_obj \<sigma> b (StringKey ''extend'') = Inr (\<sigma>, ExtendFn)"
  by (simp_all add: get_obj_def)

lemma lookupStyle_registered:
  "lookupStyle (registerStyle_obj \<sigma> name opn cls) name = Some (StylePair \<lparr>open = opn, close = cls\<rparr>)"
  by (simp add: lookupStyle_def registerStyle_obj_def)

lemma lookupStyle_asObjState:
  "p \<noteq> ''__proto__'' \<Longrightarrow> p \<notin> set objectPrototypeNames \<Longrightarrow>
   lookupStyle (asObjState \<sigma>) p = map_option StylePair (styles (registry \<sigma>) p)"
  by (simp add: lookupStyle_def asObjState_def split: option.splits)

lemma lookupDynamic_asObjState:
  "p \<noteq> ''__proto__'' \<Longrightarrow> p \<notin> set objectPrototypeNames \<Longrightarrow>
   lookupDynamic (asObjState \<sigma>) p
     = (case dynamics (registry \<sigma>) p of Some f \<Rightarrow> DynTruthy | None \<Rightarrow> DynFalsy)"
  by (simp add: lookupDynamic_def asObjState_def split: option.splits)

lemma get_obj_refines:
  assumes "key \<noteq> StringKey ''__proto__''" "\<forall>p \<in> set objectPrototypeNames. key \<noteq> StringKey p"
  shows "get_obj (asObjState \<sigma>) b key = Inr (asObjState (fst (get \<sigma> b key)), snd (get \<sigma> b key))"
proof (cases key)
  case (SymbolKey s)
  then show ?thesis by (simp add: get_obj_def get_def)
next
  case (StringKey p)
  with assms have p: "p \<noteq> ''__proto__''" "p \<notin> set objectPrototypeNames" by auto
  show ?thesis
  proof (cases "p \<in> pluginNames")
    case True
    then show ?thesis using StringKey by (auto simp: get_obj_def get_def pluginNames_def)
  next
    case False
    then have np: "StringKey p \<noteq> StringKey ''registerStyle''"
      "StringKey p \<noteq> StringKey ''registerDynamicStyle''" "StringKey p \<noteq> StringKey ''extend''"
      by (auto simp: pluginNames_def)
    show ?thesis
    proof (cases "styles (registry \<sigma>) p")
      case (Some st)
      then show ?thesis using StringKey np p
        by (simp add: get_obj_def get_def lookupStyle_asObjState alloc_obj_def alloc_def)
           (simp add: asObjState_def fun_eq_iff)
    next
      case None
      then show ?thesis using StringKey np p
        by (simp add: get_obj_def get_def lookupStyle_asObjState lookupDynamic_asObjState
            split: option.splits)
    qed
  qed
qed

lemma registered_style_resolves_obj:
  assumes "name \<notin> pluginNames"
  shows "get_obj (registerStyle_obj \<sigma> name opn cls) b (StringKey name)
     = Inr ((registerStyle_obj \<sigma> name opn cls)
              \<lparr>chains := (chains \<sigma>)(nextChain \<sigma> := chains \<sigma> b @ [StylePair \<lparr>open = opn, close = cls\<rparr>]),
               nextChain := Suc (nextChain \<sigma>)\<rparr>,
            Builder (nextChain \<sigma>))"
  using get_obj_style [OF assms lookupStyle_registered, of \<sigma> opn cls b]
  by (simp add: registerStyle_obj_def)

text \<open>
  Two accesses on a new instance that only the inherited names explain: \<open>flu.constructor\<close>
  is a builder holding a function of \<open>Object.prototype\<close>, and after
  \<open>registerStyle("__proto__", "a", "b")\<close> the name \<open>open\<close> resolves to the string \<open>a\<close>.
\<close>

lemma createFlu_obj_state:
  "ownTables (fst (createFlu_obj h)) = createDefaultRegistry h"
  "stylesProto (fst (createFlu_obj h)) = None"
  "dynamicsProto (fst (createFlu_obj h)) = None"
  "chains (fst (createFlu_obj h)) r = []"
  "nextChain (fst (createFlu_obj h)) = 1"
  "snd (createFlu_obj h) = 0"
  by (simp_all add: createFlu_obj_def alloc_obj_def)

lemma default_styles_more:
  "styles (createDefaultRegistry h) ''underline'' = Some \<lparr>open = code 4, close = code 24\<rparr>"
  "styles (createDefaultRegistry h) ''constructor'' = None"
  "styles (createDefaultRegistry h) ''open'' = None"
  "styles (createDefaultRegistry h) ''__proto__'' = None"
  by (simp_all add: createDefaultRegistry_def modifierCodes_def addColor_def BASE_COLORS_def
      enumerate_eq_zip capitalize_def toUpperCase_def Let_def)

lemma inherited_name_gives_builder:
  "snd (projr (get_obj (fst (createFlu_obj h)) 0 (StringKey ''constructor''))) = Builder 1"
  "chains (fst (projr (get_obj (fst (createFlu_obj h)) 0 (StringKey ''constructor'')))) 1
     = [ProtoFunction ''constructor'']"
  by (simp_all add: get_obj_def alloc_obj_def lookupStyle_def createFlu_obj_state
      default_styles_more objectPrototypeNames_def)

lemma proto_assignment_gives_open:
  "lookupStyle (registerStyle_obj (fst (createFlu_obj h)) ''__proto__'' ''a'' ''b'') ''open''
     = Some (Text ''a'')"
  by (simp add: registerStyle_obj_def lookupStyle_def createFlu_obj_state default_styles_more)




end
